theory Spec2Isabelle
  imports Main "HOL-Library.Word" "HOL-Library.AList" "HOL-Library.Sublist"
begin

section \<open>Values, documents and the document store\<close>

text \<open>
  A Python float is kept as the bit pattern of its IEEE double; the store only keeps and
  returns such values, and the arithmetic on them is a parameter of the model
  (see \<open>platform\<close> below).
\<close>

type_synonym pyfloat = "64 word"

text \<open>
  JSON/BSON values as the handlers build them: \<open>VTime\<close> is a UTC datetime in microseconds
  since the epoch, \<open>VId\<close> an ObjectId assigned by the store.
\<close>

datatype val =
    VNull
  | VBool bool
  | VInt int
  | VFloat pyfloat
  | VStr string
  | VTime int
  | VId nat
  | VList "val list"
  | VDict "(string \<times> val) list"

type_synonym doc = "(string \<times> val) list"

text \<open>The literals that the source's query filters compare a field with.\<close>

datatype lit = LBool bool | LStr string

fun lit_val :: "lit \<Rightarrow> val" where
  "lit_val (LBool b) = VBool b"
| "lit_val (LStr s) = VStr s"

type_synonym filter_spec = "(string \<times> lit) list"

text \<open>
  The store's equality match \<open>{field: literal}\<close>: the field is present and either equals the
  literal or is an array with the literal among its elements.
\<close>

definition field_matches :: "doc \<Rightarrow> string \<times> lit \<Rightarrow> bool" where
  "field_matches d kq =
     (case map_of d (fst kq) of
        None \<Rightarrow> False
      | Some v \<Rightarrow> v = lit_val (snd kq) \<or> (case v of VList xs \<Rightarrow> lit_val (snd kq) \<in> set xs | _ \<Rightarrow> False))"

definition matches :: "filter_spec \<Rightarrow> doc \<Rightarrow> bool" where
  "matches flt d = list_all (field_matches d) flt"

datatype error =
    HTTPException int string
  | StoreUnavailable
  | DriverError string
  | DuplicateKeyError
  | ValidationError string
  | IndexError
  | ZeroDivisionError

text \<open>
  The state a handler runs in. \<open>db_present\<close> is \<open>db is not None\<close>; \<open>colls\<close> are the
  collections that exist on the server, in creation order, each with its documents in
  insertion order; \<open>unreachable\<close> is the message of the exception every driver call raises
  while the server cannot be reached; \<open>tick\<close> counts the readings of the wall clock.
\<close>

record world =
  db_present :: bool
  colls :: "(string \<times> doc list) list"
  next_id :: nat
  unreachable :: "string option"
  tick :: nat

text \<open>
  What the process gets from outside: the wall clock (its k-th reading), the rendering of a
  datetime, the environment variables, the e-mail validator behind \<open>EmailStr\<close>, and float
  arithmetic.
\<close>

record platform =
  clock :: "nat \<Rightarrow> int"
  isoformat :: "int \<Rightarrow> string"
  getenv :: "string \<Rightarrow> string option"
  valid_email :: "string \<Rightarrow> bool"
  float_of_int :: "int \<Rightarrow> pyfloat"
  fadd :: "pyfloat \<Rightarrow> pyfloat \<Rightarrow> pyfloat"
  fsub :: "pyfloat \<Rightarrow> pyfloat \<Rightarrow> pyfloat"
  fmul :: "pyfloat \<Rightarrow> pyfloat \<Rightarrow> pyfloat"
  fdiv :: "pyfloat \<Rightarrow> pyfloat \<Rightarrow> pyfloat"
  fsin :: "pyfloat \<Rightarrow> pyfloat"
  fcos :: "pyfloat \<Rightarrow> pyfloat"
  fround :: "pyfloat \<Rightarrow> int \<Rightarrow> pyfloat"

subsection \<open>Handlers as state transformers that may raise\<close>

type_synonym 'a io = "world \<Rightarrow> (error + 'a) \<times> world"

definition io_return :: "'a \<Rightarrow> 'a io" where
  "io_return x w = (Inr x, w)"

definition io_raise :: "error \<Rightarrow> 'a io" where
  "io_raise e w = (Inl e, w)"

definition io_bind :: "'a io \<Rightarrow> ('a \<Rightarrow> 'b io) \<Rightarrow> 'b io" where
  "io_bind m f w = (case m w of (Inl e, w') \<Rightarrow> (Inl e, w') | (Inr x, w') \<Rightarrow> f x w')"

definition io_when :: "bool \<Rightarrow> unit io \<Rightarrow> unit io" where
  "io_when b m = (if b then m else io_return ())"

definition now :: "platform \<Rightarrow> int io" where
  "now p w = (Inr (clock p (tick w)), w\<lparr>tick := Suc (tick w)\<rparr>)"

subsection \<open>The driver's collection operations\<close>

definition coll_docs :: "world \<Rightarrow> string \<Rightarrow> doc list" where
  "coll_docs w c = (case map_of (colls w) c of None \<Rightarrow> [] | Some ds \<Rightarrow> ds)"

definition driver :: "(world \<Rightarrow> (error + 'a) \<times> world) \<Rightarrow> 'a io" where
  "driver f w = (case unreachable w of Some msg \<Rightarrow> (Inl (DriverError msg), w) | None \<Rightarrow> f w)"

text \<open>
  \<open>insert_one\<close>: a document without \<open>_id\<close> gets a fresh one; the collection is created when it
  does not exist yet. A supplied \<open>_id\<close> that is already in the collection is refused.
\<close>

definition insert_one :: "string \<Rightarrow> doc \<Rightarrow> val io" where
  "insert_one c d = driver (\<lambda>w.
     (case map_of d ''_id'' of
        None \<Rightarrow>
          (Inr (VId (next_id w)),
           w\<lparr>colls := AList.update c (coll_docs w c @ [(''_id'', VId (next_id w)) # d]) (colls w),
             next_id := Suc (next_id w)\<rparr>)
      | Some i \<Rightarrow>
          if Some i \<in> set (map (\<lambda>x. map_of x ''_id'') (coll_docs w c))
          then (Inl DuplicateKeyError, w)
          else (Inr i, w\<lparr>colls := AList.update c (coll_docs w c @ [d]) (colls w)\<rparr>)))"

text \<open>\<open>delete_many\<close>: every matching document goes; a missing collection stays missing.\<close>

definition delete_many :: "string \<Rightarrow> filter_spec \<Rightarrow> nat io" where
  "delete_many c flt = driver (\<lambda>w.
     (case map_of (colls w) c of
        None \<Rightarrow> (Inr 0, w)
      | Some ds \<Rightarrow>
          (Inr (length (filter (matches flt) ds)),
           w\<lparr>colls := AList.update c (filter (\<lambda>d. \<not> matches flt d) ds) (colls w)\<rparr>)))"

text \<open>\<open>find(flt).limit(n)\<close>, read into a list.\<close>

definition find_limit :: "string \<Rightarrow> filter_spec \<Rightarrow> nat \<Rightarrow> doc list io" where
  "find_limit c flt n = driver (\<lambda>w. (Inr (take n (filter (matches flt) (coll_docs w c))), w))"

text \<open>\<open>find_one(flt, {"_id": 0})\<close>: the first match without its \<open>_id\<close>, or \<open>None\<close>.\<close>

definition strip_id :: "doc \<Rightarrow> doc" where
  "strip_id d = filter (\<lambda>kv. fst kv \<noteq> ''_id'') d"

definition find_one_no_id :: "string \<Rightarrow> filter_spec \<Rightarrow> doc option io" where
  "find_one_no_id c flt = driver (\<lambda>w.
     (Inr (case filter (matches flt) (coll_docs w c) of [] \<Rightarrow> None | d # _ \<Rightarrow> Some (strip_id d)), w))"

text \<open>
  \<open>update_one(flt, {"$set": fields}, upsert=True)\<close>: the first match gets each field set
  (in place when it has the field, appended otherwise); without a match a new document is
  inserted, made of a fresh \<open>_id\<close>, the filter's equalities and the fields.
\<close>

fun set_fields :: "doc \<Rightarrow> doc \<Rightarrow> doc" where
  "set_fields [] d = d"
| "set_fields ((k, v) # kvs) d = set_fields kvs (AList.update k v d)"

fun update_first :: "(doc \<Rightarrow> bool) \<Rightarrow> (doc \<Rightarrow> doc) \<Rightarrow> doc list \<Rightarrow> doc list" where
  "update_first P f [] = []"
| "update_first P f (d # ds) = (if P d then f d # ds else d # update_first P f ds)"

definition update_one_upsert :: "string \<Rightarrow> filter_spec \<Rightarrow> doc \<Rightarrow> unit io" where
  "update_one_upsert c flt upd = driver (\<lambda>w.
     (if list_ex (matches flt) (coll_docs w c)
      then (Inr (), w\<lparr>colls := AList.update c
                         (update_first (matches flt) (set_fields upd) (coll_docs w c)) (colls w)\<rparr>)
      else (Inr (),
            w\<lparr>colls := AList.update c
                 (coll_docs w c @
                    [set_fields upd ((''_id'', VId (next_id w)) # map (\<lambda>kq. (fst kq, lit_val (snd kq))) flt)])
                 (colls w),
              next_id := Suc (next_id w)\<rparr>)))"

text \<open>\<open>db.list_collection_names()\<close>.\<close>

definition list_collection_names :: "string list io" where
  "list_collection_names = driver (\<lambda>w. (Inr (map fst (colls w)), w))"

text \<open>\<open>_collection(name)\<close>: the handle of a collection is its name.\<close>

definition collection :: "string \<Rightarrow> string io" where
  "collection name w =
     (if \<not> db_present w then (Inl (HTTPException 500 ''Database not configured''), w)
      else (Inr name, w))"

text \<open>
  Modelled from the spec: \<open>create_document\<close> of the store adapter (\<open>database.py\<close>, not among
  the sources). The spec gives it as \<open>create(collection, record) -> id\<close>, every record
  getting a server-assigned identifier and an insertion timestamp, and as surfacing a
  service-unavailable condition when the store handle is absent.
\<close>

definition create_document :: "platform \<Rightarrow> string \<Rightarrow> doc \<Rightarrow> val io" where
  "create_document p c record w =
     (if \<not> db_present w then (Inl StoreUnavailable, w)
      else io_bind (now p) (\<lambda>t. insert_one c (record @ [(''created_at'', VTime t)])) w)"

section \<open>Schemas\<close>

record User =
  name :: string
  email :: string
  role :: string
  avatar_url :: "string option"
  settings :: doc
  is_active :: bool

record Role =
  name :: string
  permissions :: "string list"

record Audit =
  action :: string
  actor :: "string option"
  severity :: string
  details :: doc

record Strategy =
  name :: string
  params :: doc

record Video =
  title :: string
  script :: "string option"
  status :: string
  metadata :: doc

record Job =
  kind :: string
  status :: string
  payload :: doc
  owner_email :: "string option"

record ContactMessage =
  name :: string
  email :: string
  message :: string

definition opt_str :: "string option \<Rightarrow> val" where
  "opt_str s = (case s of None \<Rightarrow> VNull | Some x \<Rightarrow> VStr x)"

definition User_dump :: "User \<Rightarrow> doc" where
  "User_dump u =
     [(''name'', VStr (User.name u)), (''email'', VStr (User.email u)), (''role'', VStr (role u)),
      (''avatar_url'', opt_str (avatar_url u)), (''settings'', VDict (User.settings u)),
      (''is_active'', VBool (is_active u))]"

definition Role_dump :: "Role \<Rightarrow> doc" where
  "Role_dump r = [(''name'', VStr (Role.name r)), (''permissions'', VList (map VStr (permissions r)))]"

definition Audit_dump :: "Audit \<Rightarrow> doc" where
  "Audit_dump a =
     [(''action'', VStr (action a)), (''actor'', opt_str (actor a)), (''severity'', VStr (severity a)),
      (''details'', VDict (details a))]"

definition Strategy_dump :: "Strategy \<Rightarrow> doc" where
  "Strategy_dump s = [(''name'', VStr (Strategy.name s)), (''params'', VDict (params s))]"

definition Video_dump :: "Video \<Rightarrow> doc" where
  "Video_dump v =
     [(''title'', VStr (title v)), (''script'', opt_str (Video.script v)), (''status'', VStr (Video.status v)),
      (''metadata'', VDict (metadata v))]"

definition Job_dump :: "Job \<Rightarrow> doc" where
  "Job_dump j =
     [(''kind'', VStr (kind j)), (''status'', VStr (Job.status j)), (''payload'', VDict (payload j)),
      (''owner_email'', opt_str (owner_email j))]"

definition ContactMessage_dump :: "ContactMessage \<Rightarrow> doc" where
  "ContactMessage_dump m =
     [(''name'', VStr (ContactMessage.name m)), (''email'', VStr (ContactMessage.email m)),
      (''message'', VStr (message m))]"

text \<open>
  Building a \<open>User\<close> validates the \<open>EmailStr\<close> field and raises on a refusal; the other
  schemas used below have only fields that accept every value of their type.
\<close>

definition User_init :: "platform \<Rightarrow> User \<Rightarrow> User io" where
  "User_init p u = (if valid_email p (User.email u) then io_return u
                    else io_raise (ValidationError ''email''))"

section \<open>Self-heal\<close>

definition critical :: "string list" where
  "critical = [''user'', ''role'', ''product'', ''affiliate'', ''strategy'', ''trade'', ''video'',
               ''job'', ''audit'', ''contactmessage'']"

definition ensure_filter :: filter_spec where
  "ensure_filter = [(''_ensure'', LBool True)]"

fun ensure_loop :: "platform \<Rightarrow> string list \<Rightarrow> string list \<Rightarrow> string list io" where
  "ensure_loop p [] ensured = io_return ensured"
| "ensure_loop p (c # cs) ensured =
     io_bind (collection c) (\<lambda>h.
     io_bind (now p) (\<lambda>ts.
     io_bind (insert_one h [(''_ensure'', VBool True), (''ts'', VTime ts)]) (\<lambda>_.
     io_bind (collection c) (\<lambda>h'.
     io_bind (delete_many h' ensure_filter) (\<lambda>_.
     ensure_loop p cs (ensured @ [c]))))))"

record heal_response =
  status :: string
  ensured :: "string list"

definition seed_role :: "platform \<Rightarrow> unit io" where
  "seed_role p =
     io_bind (collection ''role'') (\<lambda>h.
     io_bind (find_limit h [(''name'', LStr ''admin'')] 1) (\<lambda>roles.
     io_when (roles = [])
       (io_bind (create_document p ''role'' (Role_dump \<lparr>Role.name = ''admin'', permissions = [''*'']\<rparr>))
          (\<lambda>_. io_return ()))))"

definition seed_user :: "platform \<Rightarrow> unit io" where
  "seed_user p =
     io_bind (collection ''user'') (\<lambda>h.
     io_bind (find_limit h [(''email'', LStr ''admin@local'')] 1) (\<lambda>admins.
     io_when (admins = [])
       (io_bind (User_init p \<lparr>User.name = ''Administrator'', email = ''admin@local'', role = ''admin'',
                               avatar_url = None, settings = [(''theme'', VStr ''dark'')],
                               is_active = True\<rparr>) (\<lambda>u.
        io_bind (create_document p ''user'' (User_dump u)) (\<lambda>_. io_return ())))))"

definition heal :: "platform \<Rightarrow> heal_response io" where
  "heal p w =
     (if \<not> db_present w then (Inl (HTTPException 500 ''Database not configured''), w)
      else
        io_bind (ensure_loop p critical []) (\<lambda>ens.
        io_bind (seed_role p) (\<lambda>_.
        io_bind (seed_user p) (\<lambda>_.
        io_bind (create_document p ''audit''
                   (Audit_dump \<lparr>action = ''self_heal'', actor = Some ''system'', severity = ''info'',
                                details = [(''ensured'', VList (map VStr ens))]\<rparr>)) (\<lambda>_.
        io_return \<lparr>heal_response.status = ''ok'', ensured = ens\<rparr>)))) w)"

section \<open>Health\<close>

definition io_catch :: "'a io \<Rightarrow> (error \<Rightarrow> 'a io) \<Rightarrow> 'a io" where
  "io_catch m handler w = (case m w of (Inl e, w') \<Rightarrow> handler e w' | (Inr x, w') \<Rightarrow> (Inr x, w'))"

text \<open>
  \<open>str(e)\<close> of a caught exception. Inside the \<open>try\<close> of \<open>health\<close> only the driver raises;
  the other cases are there for totality.
\<close>

fun error_text :: "error \<Rightarrow> string" where
  "error_text (DriverError msg) = msg"
| "error_text (HTTPException code detail) = detail"
| "error_text StoreUnavailable = ''StoreUnavailable''"
| "error_text DuplicateKeyError = ''DuplicateKeyError''"
| "error_text (ValidationError msg) = msg"
| "error_text IndexError = ''list index out of range''"
| "error_text ZeroDivisionError = ''float division by zero''"

definition env_flag :: "platform \<Rightarrow> string \<Rightarrow> bool" where
  "env_flag p k = (case getenv p k of None \<Rightarrow> False | Some s \<Rightarrow> s \<noteq> [])"

record health_status =
  backend :: string
  time :: string
  env :: "(string \<times> bool) list"
  database :: string
  collections :: "string list"

definition health :: "platform \<Rightarrow> health_status io" where
  "health p =
     io_bind (now p) (\<lambda>tm w.
       (let st = \<lparr>backend = ''ok'', time = isoformat p tm,
                   env = [(''DATABASE_URL'', env_flag p ''DATABASE_URL''),
                          (''DATABASE_NAME'', env_flag p ''DATABASE_NAME'')],
                   database = (if db_present w then ''ok'' else ''error''),
                   collections = []\<rparr>
        in if db_present w
           then io_catch
                  (io_bind list_collection_names (\<lambda>names. io_return (st\<lparr>collections := names\<rparr>)))
                  (\<lambda>e. io_return (st\<lparr>database := ''error: '' @ take 80 (error_text e)\<rparr>)) w
           else io_return st w))"

section \<open>Users and contact\<close>

text \<open>
  The framework validates a request body before the handler runs, so a handler's argument
  is a value of its schema.
\<close>

definition create_user :: "platform \<Rightarrow> User \<Rightarrow> doc io" where
  "create_user p user =
     io_bind (create_document p ''user'' (User_dump user)) (\<lambda>user_id.
     io_return [(''id'', user_id)])"

definition submit_contact :: "platform \<Rightarrow> ContactMessage \<Rightarrow> doc io" where
  "submit_contact p msg =
     io_bind (create_document p ''contactmessage'' (ContactMessage_dump msg)) (\<lambda>msg_id.
     io_bind (create_document p ''audit''
                (Audit_dump \<lparr>action = ''contact_submit'', actor = Some (ContactMessage.email msg),
                             severity = ''info'',
                             details = [(''name'', VStr (ContactMessage.name msg))]\<rparr>)) (\<lambda>_.
     io_return [(''id'', msg_id)]))"

section \<open>Backtest\<close>

record BacktestRequest =
  symbol :: string
  strategy :: Strategy
  days :: int

definition BacktestRequest_dump :: "BacktestRequest \<Rightarrow> doc" where
  "BacktestRequest_dump r =
     [(''symbol'', VStr (symbol r)), (''strategy'', VDict (Strategy_dump (strategy r))),
      (''days'', VInt (days r))]"

record point =
  point_t :: string
  equity :: pyfloat

record backtest_stats =
  stats_start :: pyfloat
  stats_end :: pyfloat
  return_pct :: pyfloat

record backtest_response =
  series :: "point list"
  stats :: backtest_stats

definition microseconds_per_day :: int where
  "microseconds_per_day = 86400000000"

definition fis_zero :: "pyfloat \<Rightarrow> bool" where
  "fis_zero x = (x = 0 \<or> x = 0x8000000000000000)"

text \<open>\<open>round(base + i * 12 + drift + noise, 2)\<close> for the index \<open>i\<close>.\<close>

definition equity_at :: "platform \<Rightarrow> int \<Rightarrow> pyfloat" where
  "equity_at p i =
     (let base = float_of_int p 10000;
          drift = fmul p (fsin p (fdiv p (float_of_int p i) (float_of_int p 6))) (float_of_int p 50);
          noise = fmul p (fcos p (fdiv p (float_of_int p i) (float_of_int p 3))) (float_of_int p 10);
          value = fadd p (fadd p (fadd p base (float_of_int p (i * 12))) drift) noise
      in fround p value 2)"

text \<open>The body of \<open>for i in range(days)\<close>, run over the indices still to come.\<close>

fun backtest_loop :: "platform \<Rightarrow> int \<Rightarrow> nat list \<Rightarrow> point list \<Rightarrow> point list io" where
  "backtest_loop p dys [] ser = io_return ser"
| "backtest_loop p dys (i # rest) ser =
     io_bind (now p) (\<lambda>tm.
       backtest_loop p dys rest
         (ser @ [\<lparr>point_t = isoformat p (tm - (dys - int i) * microseconds_per_day),
                   equity = equity_at p (int i)\<rparr>]))"

definition backtest_stats_of :: "platform \<Rightarrow> point list \<Rightarrow> backtest_stats io" where
  "backtest_stats_of p ser =
     (case ser of
        [] \<Rightarrow> io_raise IndexError
      | first # _ \<Rightarrow>
          if fis_zero (equity first) then io_raise ZeroDivisionError
          else io_return
                 \<lparr>stats_start = equity first,
                  stats_end = equity (last ser),
                  return_pct =
                    fround p (fmul p (fsub p (fdiv p (equity (last ser)) (equity first)) (float_of_int p 1))
                                (float_of_int p 100)) 2\<rparr>)"

definition backtest :: "platform \<Rightarrow> BacktestRequest \<Rightarrow> backtest_response io" where
  "backtest p req =
     (let dys = max 5 (min 365 (days req))
      in io_bind (backtest_loop p dys [0..<nat dys] []) (\<lambda>ser.
         io_bind (backtest_stats_of p ser) (\<lambda>sts.
         io_bind (create_document p ''job''
                    (Job_dump \<lparr>kind = ''backtest'', Job.status = ''completed'',
                               payload = BacktestRequest_dump req, owner_email = None\<rparr>)) (\<lambda>_.
         io_return \<lparr>series = ser, stats = sts\<rparr>))))"

section \<open>Script generation\<close>

record ScriptRequest =
  topic :: string
  style :: string
  duration_min :: int

fun digits :: "nat \<Rightarrow> string" where
  "digits n = (if n < 10 then [char_of (48 + n)] else digits (n div 10) @ [char_of (48 + n mod 10)])"

definition str_int :: "int \<Rightarrow> string" where
  "str_int i = (if i < 0 then CHR ''-'' # digits (nat (- i)) else digits (nat i))"

fun join :: "string \<Rightarrow> string list \<Rightarrow> string" where
  "join sep [] = []"
| "join sep [x] = x"
| "join sep (x # y # ys) = x @ sep @ join sep (y # ys)"

definition script_outline :: "ScriptRequest \<Rightarrow> string list" where
  "script_outline req =
     [''Hook: surprising fact about '' @ topic req,
      ''What you'' @ [CHR 0x27] @ ''ll learn in '' @ str_int (duration_min req) @ '' minutes'',
      ''Three key ideas'',
      ''Quick demo'',
      ''Call to action'']"

definition script_paragraphs :: "ScriptRequest \<Rightarrow> string list" where
  "script_paragraphs req =
     [''Welcome! In this '' @ style req @ '' video, we'' @ [CHR 0x27] @ ''ll cover '' @ topic req
        @ '' in just '' @ str_int (duration_min req) @ '' minutes.'',
      ''First, let'' @ [CHR 0x27] @ ''s ground the problem: why '' @ topic req @ '' matters.'',
      ''Then we'' @ [CHR 0x27] @ ''ll break it down into simple steps you can apply today.'',
      ''Stick around for a short demo and a quick recap!'']"

definition script_video :: "ScriptRequest \<Rightarrow> Video" where
  "script_video req =
     \<lparr>title = topic req @ '' in '' @ str_int (duration_min req) @ '' minutes'',
      Video.script = Some (join [CHR 0x0A, CHR 0x0A] (script_paragraphs req)),
      Video.status = ''draft'', metadata = []\<rparr>"

record script_response =
  video_id :: val
  outline :: "string list"
  script :: string

definition generate_script :: "platform \<Rightarrow> ScriptRequest \<Rightarrow> script_response io" where
  "generate_script p req =
     (let outl = script_outline req;
          content = join [CHR 0x0A, CHR 0x0A] (script_paragraphs req);
          vid = script_video req
      in io_bind (create_document p ''video'' (Video_dump vid)) (\<lambda>vid_id.
         io_bind (create_document p ''audit''
                    (Audit_dump \<lparr>action = ''script_generate'', actor = Some ''system'', severity = ''info'',
                                 details = [(''topic'', VStr (topic req))]\<rparr>)) (\<lambda>_.
         io_return \<lparr>video_id = vid_id, outline = outl, script_response.script = content\<rparr>)))"

section \<open>Settings\<close>

record SettingsUpdate =
  email :: string
  settings :: doc

definition email_filter :: "string \<Rightarrow> filter_spec" where
  "email_filter e = [(''email'', LStr e)]"

definition update_settings :: "platform \<Rightarrow> SettingsUpdate \<Rightarrow> doc option io" where
  "update_settings p req =
     io_bind (collection ''user'') (\<lambda>col.
     io_bind (now p) (\<lambda>tm.
     io_bind (update_one_upsert col (email_filter (SettingsUpdate.email req))
                [(''settings'', VDict (SettingsUpdate.settings req)), (''updated_at'', VTime tm)]) (\<lambda>_.
     io_bind (create_document p ''audit''
                (Audit_dump \<lparr>action = ''settings_update'', actor = Some (SettingsUpdate.email req),
                             severity = ''info'', details = []\<rparr>)) (\<lambda>_.
     io_bind (find_one_no_id col (email_filter (SettingsUpdate.email req))) (\<lambda>user_doc.
     io_return user_doc)))))"

section \<open>Predicates and sample inputs used in the statements\<close>

text \<open>The store is configured and the server answers.\<close>

definition reachable :: "world \<Rightarrow> bool" where
  "reachable w = (db_present w \<and> unreachable w = None)"

text \<open>
  What the validator behind \<open>EmailStr\<close> asks of the addresses used below: an \<open>@\<close>, and a
  period in the domain part after it. It accepts \<open>a@b.co\<close> and refuses \<open>admin@local\<close>.
\<close>

definition email_domain :: "string \<Rightarrow> string" where
  "email_domain e = rev (takeWhile (\<lambda>c. c \<noteq> CHR ''@'') (rev e))"

definition dotted_domain :: "string \<Rightarrow> bool" where
  "dotted_domain e = (CHR ''@'' \<in> set e \<and> CHR ''.'' \<in> set (email_domain e))"

text \<open>
  A platform to run the handlers on concrete inputs: floats are stood for by machine
  integers, the clock advances by one per reading, an e-mail address is accepted when its
  domain part has a period.
\<close>

definition sample_platform :: platform where
  "sample_platform =
     \<lparr>clock = (\<lambda>k. 1000 + int k), isoformat = str_int, getenv = (\<lambda>k. None),
      valid_email = dotted_domain, float_of_int = word_of_int,
      fadd = (\<lambda>a b. a + b), fsub = (\<lambda>a b. a - b), fmul = (\<lambda>a b. a * b), fdiv = (\<lambda>a b. a div b),
      fsin = (\<lambda>a. a), fcos = (\<lambda>a. a), fround = (\<lambda>a n. a)\<rparr>"

definition fresh_world :: world where
  "fresh_world = \<lparr>db_present = True, colls = [], next_id = 0, unreachable = None, tick = 0\<rparr>"

definition sample_backtest_request :: BacktestRequest where
  "sample_backtest_request =
     \<lparr>symbol = ''BTCUSDT'', strategy = \<lparr>Strategy.name = ''sma'', params = []\<rparr>, days = 1\<rparr>"

definition sample_script_request :: ScriptRequest where
  "sample_script_request = \<lparr>topic = ''index funds'', style = ''educational'', duration_min = 3\<rparr>"

definition unconfigured_world :: world where
  "unconfigured_world = \<lparr>db_present = False, colls = [], next_id = 0, unreachable = None, tick = 0\<rparr>"

definition down_world :: world where
  "down_world =
     \<lparr>db_present = True, colls = [], next_id = 0, unreachable = Some ''connection refused'', tick = 0\<rparr>"

text \<open>The filters of the two seeding queries, and the documents heal inserts.\<close>

definition admin_role_filter :: filter_spec where
  "admin_role_filter = [(''name'', LStr ''admin'')]"

definition admin_user_filter :: filter_spec where
  "admin_user_filter = [(''email'', LStr ''admin@local'')]"

definition seeded_role :: "nat \<Rightarrow> int \<Rightarrow> doc" where
  "seeded_role i t =
     (''_id'', VId i) # Role_dump \<lparr>Role.name = ''admin'', permissions = [''*'']\<rparr> @ [(''created_at'', VTime t)]"

definition seeded_user :: "nat \<Rightarrow> int \<Rightarrow> doc" where
  "seeded_user i t =
     (''_id'', VId i) #
     User_dump \<lparr>User.name = ''Administrator'', email = ''admin@local'', role = ''admin'',
                avatar_url = None, settings = [(''theme'', VStr ''dark'')], is_active = True\<rparr>
     @ [(''created_at'', VTime t)]"

definition heal_audit :: "nat \<Rightarrow> int \<Rightarrow> doc" where
  "heal_audit i t =
     (''_id'', VId i) #
     Audit_dump \<lparr>action = ''self_heal'', actor = Some ''system'', severity = ''info'',
                 details = [(''ensured'', VList (map VStr critical))]\<rparr>
     @ [(''created_at'', VTime t)]"

text \<open>The documents that \<open>delete_many({"_ensure": True})\<close> leaves.\<close>

definition unmarked :: "doc list \<Rightarrow> doc list" where
  "unmarked ds = filter (\<lambda>d. \<not> matches ensure_filter d) ds"

definition cleaned :: "world \<Rightarrow> string \<Rightarrow> doc list" where
  "cleaned w c = (if c \<in> set critical then unmarked (coll_docs w c) else coll_docs w c)"

text \<open>\<open>n\<close> heal requests one after the other; the state after the last.\<close>

fun heal_times :: "platform \<Rightarrow> nat \<Rightarrow> world \<Rightarrow> world" where
  "heal_times p 0 w = w"
| "heal_times p (Suc n) w = snd (heal p (heal_times p n w))"

text \<open>
  What a successful heal establishes: no flagged document in the role, user and audit
  collections, and an admin role and an admin user present.
\<close>

definition settled :: "world \<Rightarrow> bool" where
  "settled w =
     (reachable w \<and>
      unmarked (coll_docs w ''role'') = coll_docs w ''role'' \<and>
      unmarked (coll_docs w ''user'') = coll_docs w ''user'' \<and>
      unmarked (coll_docs w ''audit'') = coll_docs w ''audit'' \<and>
      filter (matches admin_role_filter) (coll_docs w ''role'') \<noteq> [] \<and>
      filter (matches admin_user_filter) (coll_docs w ''user'') \<noteq> [])"

text \<open>A store whose product collection holds a document that carries \<open>_ensure: true\<close>.\<close>

definition marked_product :: doc where
  "marked_product = [(''_id'', VId 0), (''title'', VStr ''Course''), (''_ensure'', VBool True)]"

definition marked_world :: world where
  "marked_world =
     \<lparr>db_present = True, colls = [(''product'', [marked_product])],
      next_id = 1, unreachable = None, tick = 0\<rparr>"

text \<open>The fields a settings update sets, and the document its upsert inserts.\<close>

definition settings_fields :: "platform \<Rightarrow> SettingsUpdate \<Rightarrow> world \<Rightarrow> doc" where
  "settings_fields p req w =
     [(''settings'', VDict (SettingsUpdate.settings req)), (''updated_at'', VTime (clock p (tick w)))]"

definition upserted_user :: "platform \<Rightarrow> SettingsUpdate \<Rightarrow> world \<Rightarrow> doc" where
  "upserted_user p req w =
     [(''_id'', VId (next_id w)), (''email'', VStr (SettingsUpdate.email req)),
      (''settings'', VDict (SettingsUpdate.settings req)), (''updated_at'', VTime (clock p (tick w)))]"

definition theme_request :: SettingsUpdate where
  "theme_request = \<lparr>email = ''a@b.co'', settings = [(''theme'', VStr ''dark'')]\<rparr>"

definition language_request :: SettingsUpdate where
  "language_request = \<lparr>email = ''a@b.co'', settings = [(''lang'', VStr ''en'')]\<rparr>"

text \<open>The store after a first settings update for \<open>a@b.co\<close> on an empty store.\<close>

definition themed_world :: world where
  "themed_world = snd (update_settings sample_platform theme_request fresh_world)"

definition newcomer_request :: SettingsUpdate where
  "newcomer_request = \<lparr>email = ''new@example.com'', settings = [(''lang'', VStr ''en'')]\<rparr>"

text \<open>
  The series of a day count \<open>n\<close>, as the spec words it: \<open>n\<close> points, the \<open>i\<close>-th dated
  \<open>n - i\<close> days before the clock reading taken for it and carrying the \<open>i\<close>-th value of the
  equity curve; and the summary statistics of a series.
\<close>

definition series_for_days :: "platform \<Rightarrow> world \<Rightarrow> nat \<Rightarrow> point list" where
  "series_for_days p w n =
     map (\<lambda>i. \<lparr>point_t = isoformat p (clock p (tick w + i) - (int n - int i) * microseconds_per_day),
                equity = equity_at p (int i)\<rparr>) [0..<n]"

definition stats_for_series :: "platform \<Rightarrow> point list \<Rightarrow> backtest_stats" where
  "stats_for_series p ser =
     \<lparr>stats_start = equity (hd ser),
      stats_end = equity (last ser),
      return_pct =
        fround p (fmul p (fsub p (fdiv p (equity (last ser)) (equity (hd ser))) (float_of_int p 1))
                    (float_of_int p 100)) 2\<rparr>"

section \<open>Backtest: clamping, series length and statistics\<close>

lemma backtest_loop_run:
  "\<exists>ser'. backtest_loop p dys idxs ser w = (Inr ser', w\<lparr>tick := tick w + length idxs\<rparr>) \<and>
     length ser' = length ser + length idxs \<and>
     map equity ser' = map equity ser @ map (\<lambda>i. equity_at p (int i)) idxs"
proof (induction idxs arbitrary: ser w)
  case Nil
  then show ?case by (simp add: io_return_def)
next
  case (Cons i rest)
  let ?pt = "\<lparr>point_t = isoformat p (clock p (tick w) - (dys - int i) * microseconds_per_day),
                   equity = equity_at p (int i)\<rparr>"
  from Cons.IH [of "ser @ [?pt]" "w\<lparr>tick := Suc (tick w)\<rparr>"]
  show ?case by (simp add: io_bind_def now_def)
qed

lemma backtest_loop_init:
  "\<exists>ser. backtest_loop p dys idxs [] w = (Inr ser, w\<lparr>tick := tick w + length idxs\<rparr>) \<and>
     length ser = length idxs \<and> map equity ser = map (\<lambda>i. equity_at p (int i)) idxs"
  using backtest_loop_run [of p dys idxs "[]" w] by simp

text \<open>
  With a reachable store and a first equity value that is not zero (as 10010.0 is in IEEE
  arithmetic), the backtest returns a response.
\<close>

lemma backtest_returns:
  assumes "reachable w" "\<not> fis_zero (equity_at p 0)"
  shows "\<exists>resp w'. backtest p req w = (Inr resp, w')"
proof -
  let ?dys = "max 5 (min 365 (days req))"
  from backtest_loop_init [of p ?dys "[0..<nat ?dys]" w]
  obtain ser where run: "backtest_loop p ?dys [0..<nat ?dys] [] w = (Inr ser, w\<lparr>tick := tick w + length [0..<nat ?dys]\<rparr>)"
    and eq: "map equity ser = map (\<lambda>i. equity_at p (int i)) [0..<nat ?dys]"
    by (elim exE conjE)
  have "[0..<nat ?dys] = 0 # [1..<nat ?dys]" by (simp add: upt_conv_Cons)
  with eq have "map equity ser = equity_at p 0 # map (\<lambda>i. equity_at p (int i)) [1..<nat ?dys]" by simp
  then obtain x xs where ser: "ser = x # xs" and x: "equity x = equity_at p 0" by (cases ser) auto
  show ?thesis
    using assms run x unfolding backtest_def Let_def
    by (simp add: io_bind_def backtest_stats_of_def ser io_raise_def io_return_def reachable_def
        create_document_def now_def insert_one_def driver_def Job_dump_def)
qed

lemma sample_equity_nonzero: "\<not> fis_zero (equity_at sample_platform 0)"
  by (simp add: fis_zero_def equity_at_def sample_platform_def)

lemma fresh_world_reachable: "reachable fresh_world"
  by (simp add: reachable_def fresh_world_def)

lemma backtest_loop_upt:
  "k \<le> n \<Longrightarrow> tick w = t0 + k \<Longrightarrow>
   backtest_loop p dys [k..<n] ser w =
     (Inr (ser @ map (\<lambda>i. \<lparr>point_t = isoformat p (clock p (t0 + i) - (dys - int i) * microseconds_per_day),
                              equity = equity_at p (int i)\<rparr>) [k..<n]),
      w\<lparr>tick := t0 + n\<rparr>)"
proof (induction "n - k" arbitrary: k ser w)
  case 0
  then have kn: "k = n" by simp
  have "w\<lparr>tick := tick w\<rparr> = w" by simp
  with 0 kn show ?case by (simp add: io_return_def)
next
  case (Suc m)
  then have lt: "k < n" and m: "m = n - Suc k" and le: "Suc k \<le> n" by simp_all
  let ?pt = "\<lparr>point_t = isoformat p (clock p (t0 + k) - (dys - int k) * microseconds_per_day),
              equity = equity_at p (int k)\<rparr>"
  have t1: "tick (w\<lparr>tick := Suc (tick w)\<rparr>) = t0 + Suc k" using Suc.prems(2) by simp
  from Suc.hyps(1) [OF m le t1, of "ser @ [?pt]"]
  have rest: "backtest_loop p dys [Suc k..<n] (ser @ [?pt]) (w\<lparr>tick := Suc (tick w)\<rparr>) =
     (Inr ((ser @ [?pt]) @ map (\<lambda>i. \<lparr>point_t = isoformat p (clock p (t0 + i) - (dys - int i) * microseconds_per_day),
                              equity = equity_at p (int i)\<rparr>) [Suc k..<n]),
      w\<lparr>tick := Suc (tick w)\<rparr>\<lparr>tick := t0 + n\<rparr>)" .
  have first: "backtest_loop p dys [k..<n] ser w =
      backtest_loop p dys [Suc k..<n] (ser @ [?pt]) (w\<lparr>tick := Suc (tick w)\<rparr>)"
    using lt Suc.prems(2) by (simp add: upt_conv_Cons io_bind_def now_def)
  have up: "[k..<n] = k # [Suc k..<n]" using lt by (simp add: upt_conv_Cons)
  show ?case
    unfolding first rest by (simp add: up)
qed

text \<open>
  With a reachable store and a first equity value that is not zero, the backtest returns
  the series of the clamped day count and its statistics.
\<close>

lemma backtest_run:
  assumes "reachable w" "\<not> fis_zero (equity_at p 0)"
  shows "\<exists>w'. backtest p req w =
           (Inr \<lparr>series = series_for_days p w (nat (max 5 (min 365 (days req)))),
                 stats = stats_for_series p (series_for_days p w (nat (max 5 (min 365 (days req)))))\<rparr>, w')"
proof -
  let ?dys = "max 5 (min 365 (days req))"
  let ?n = "nat ?dys"
  have n: "int ?n = ?dys" by simp
  have loop: "backtest_loop p ?dys [0..<?n] [] w = (Inr (series_for_days p w ?n), w\<lparr>tick := tick w + ?n\<rparr>)"
    using backtest_loop_upt [of 0 ?n w "tick w" p ?dys "[]"] by (simp add: series_for_days_def n)
  have upt: "[0..<?n] = 0 # [1..<?n]" by (simp add: upt_conv_Cons)
  obtain x xs where ser: "series_for_days p w ?n = x # xs" and x: "equity x = equity_at p 0"
    unfolding series_for_days_def by (simp add: upt)
  show ?thesis
    using assms x unfolding backtest_def Let_def
    by (simp add: loop io_bind_def backtest_stats_of_def ser stats_for_series_def io_return_def
        reachable_def create_document_def now_def insert_one_def driver_def Job_dump_def)
qed


lemma length_series_for_days: "length (series_for_days p w n) = n"
  by (simp add: series_for_days_def)

lemma backtest_outcome_clamped:
  "fst (backtest p (req\<lparr>days := d\<rparr>) w) = fst (backtest p (req\<lparr>days := max 5 (min 365 d)\<rparr>) w)"
proof -
  have idem: "max 5 (min 365 (max 5 (min 365 d))) = max 5 (min (365::int) d)" by simp
  show ?thesis
    unfolding backtest_def Let_def
    by (simp add: idem io_bind_def create_document_def now_def insert_one_def driver_def Job_dump_def
        io_return_def split: prod.splits sum.splits option.splits)
qed

lemma backtest_response:
  assumes "backtest p req w = (Inr resp, w')"
  shows "resp = \<lparr>series = series_for_days p w (nat (max 5 (min 365 (days req)))),
                 stats = stats_for_series p (series_for_days p w (nat (max 5 (min 365 (days req)))))\<rparr>"
proof -
  let ?dys = "max 5 (min 365 (days req))"
  let ?n = "nat ?dys"
  have n: "int ?n = ?dys" by simp
  have loop: "backtest_loop p ?dys [0..<?n] [] w = (Inr (series_for_days p w ?n), w\<lparr>tick := tick w + ?n\<rparr>)"
    using backtest_loop_upt [of 0 ?n w "tick w" p ?dys "[]"] by (simp add: series_for_days_def n)
  have upt: "[0..<?n] = 0 # [1..<?n]" by (simp add: upt_conv_Cons)
  obtain x xs where ser: "series_for_days p w ?n = x # xs"
    unfolding series_for_days_def by (simp add: upt)
  from assms show ?thesis
    unfolding backtest_def Let_def
    by (auto simp add: loop io_bind_def backtest_stats_of_def ser stats_for_series_def io_return_def
        io_raise_def split: prod.splits sum.splits if_splits)
qed

text \<open>
  C2. Whenever the backtest returns a response to a request with \<open>days = d\<close>, its series is
  the series of the clamped day count \<open>max(5, min(365, d))\<close>, between 5 and 365 points long,
  its statistics are those of that series, and the request with the clamped day count gets
  the same response. So \<open>days = 1\<close> gets the 5-point series and the response of \<open>days = 5\<close>,
  and \<open>days = 10000\<close> the 365-point series and the response of \<open>days = 365\<close>.
\<close>

theorem backtest_days_clamped:
  assumes "backtest p (req\<lparr>days := d\<rparr>) w = (Inr resp, w')"
  shows "series resp = series_for_days p w (nat (max 5 (min 365 d))) \<and>
     stats resp = stats_for_series p (series_for_days p w (nat (max 5 (min 365 d)))) \<and>
     5 \<le> length (series resp) \<and> length (series resp) \<le> 365 \<and>
     fst (backtest p (req\<lparr>days := max 5 (min 365 d)\<rparr>) w) = Inr resp \<and>
     (d = 1 \<longrightarrow> series resp = series_for_days p w 5 \<and>
                fst (backtest p (req\<lparr>days := 5\<rparr>) w) = Inr resp) \<and>
     (d = 10000 \<longrightarrow> series resp = series_for_days p w 365 \<and>
                    fst (backtest p (req\<lparr>days := 365\<rparr>) w) = Inr resp)"
proof -
  from backtest_response [OF assms]
  have resp: "resp = \<lparr>series = series_for_days p w (nat (max 5 (min 365 d))),
                       stats = stats_for_series p (series_for_days p w (nat (max 5 (min 365 d))))\<rparr>"
    by simp
  from assms have "fst (backtest p (req\<lparr>days := d\<rparr>) w) = Inr resp" by simp
  then have same: "fst (backtest p (req\<lparr>days := max 5 (min 365 d)\<rparr>) w) = Inr resp"
    by (simp add: backtest_outcome_clamped [symmetric])
  have a: "series resp = series_for_days p w (nat (max 5 (min 365 d)))" by (simp add: resp)
  have b: "stats resp = stats_for_series p (series_for_days p w (nat (max 5 (min 365 d))))" by (simp add: resp)
  have c: "5 \<le> length (series resp) \<and> length (series resp) \<le> 365"
  proof -
    have "5 \<le> nat (max 5 (min 365 d))" "nat (max 5 (min 365 d)) \<le> 365" by linarith+
    then show ?thesis by (simp add: a length_series_for_days)
  qed
  have low: "d = 1 \<longrightarrow> series resp = series_for_days p w 5 \<and>
                fst (backtest p (req\<lparr>days := 5\<rparr>) w) = Inr resp"
    using a same by auto
  have high: "d = 10000 \<longrightarrow> series resp = series_for_days p w 365 \<and>
                    fst (backtest p (req\<lparr>days := 365\<rparr>) w) = Inr resp"
    using a same by auto
  from a b c same low high show ?thesis by simp
qed

theorem backtest_days_clamped_witness:
  "(\<exists>resp w'. backtest sample_platform (sample_backtest_request\<lparr>days := 1\<rparr>) fresh_world = (Inr resp, w') \<and>
      series resp = series_for_days sample_platform fresh_world 5 \<and> length (series resp) = 5 \<and>
      fst (backtest sample_platform (sample_backtest_request\<lparr>days := 5\<rparr>) fresh_world) = Inr resp) \<and>
   (\<exists>resp w'. backtest sample_platform (sample_backtest_request\<lparr>days := 10000\<rparr>) fresh_world = (Inr resp, w') \<and>
      series resp = series_for_days sample_platform fresh_world 365 \<and> length (series resp) = 365 \<and>
      fst (backtest sample_platform (sample_backtest_request\<lparr>days := 365\<rparr>) fresh_world) = Inr resp)"
proof -
  from backtest_returns [OF fresh_world_reachable sample_equity_nonzero, of "sample_backtest_request\<lparr>days := 1\<rparr>"]
  obtain r1 w1 where run1:
    "backtest sample_platform (sample_backtest_request\<lparr>days := 1\<rparr>) fresh_world = (Inr r1, w1)"
    by (elim exE)
  from backtest_returns [OF fresh_world_reachable sample_equity_nonzero, of "sample_backtest_request\<lparr>days := 10000\<rparr>"]
  obtain r2 w2 where run2:
    "backtest sample_platform (sample_backtest_request\<lparr>days := 10000\<rparr>) fresh_world = (Inr r2, w2)"
    by (elim exE)
  from backtest_days_clamped [OF run1]
  have low: "series r1 = series_for_days sample_platform fresh_world 5 \<and>
             fst (backtest sample_platform (sample_backtest_request\<lparr>days := 5\<rparr>) fresh_world) = Inr r1"
    by simp
  from backtest_days_clamped [OF run2]
  have high: "series r2 = series_for_days sample_platform fresh_world 365 \<and>
              fst (backtest sample_platform (sample_backtest_request\<lparr>days := 365\<rparr>) fresh_world) = Inr r2"
    by simp
  have first: "\<exists>resp w'. backtest sample_platform (sample_backtest_request\<lparr>days := 1\<rparr>) fresh_world = (Inr resp, w') \<and>
      series resp = series_for_days sample_platform fresh_world 5 \<and> length (series resp) = 5 \<and>
      fst (backtest sample_platform (sample_backtest_request\<lparr>days := 5\<rparr>) fresh_world) = Inr resp"
    apply (rule exI [of _ r1], rule exI [of _ w1])
    using run1 low by (simp add: length_series_for_days)
  have second: "\<exists>resp w'. backtest sample_platform (sample_backtest_request\<lparr>days := 10000\<rparr>) fresh_world = (Inr resp, w') \<and>
      series resp = series_for_days sample_platform fresh_world 365 \<and> length (series resp) = 365 \<and>
      fst (backtest sample_platform (sample_backtest_request\<lparr>days := 365\<rparr>) fresh_world) = Inr resp"
    apply (rule exI [of _ r2], rule exI [of _ w2])
    using run2 high by (simp add: length_series_for_days)
  from first second show ?thesis by (rule conjI)
qed

text \<open>
  C3. Whenever the backtest returns a response, its series has exactly
  \<open>max(5, min(365, days))\<close> elements, \<open>stats.start\<close> is the equity of the first element and
  \<open>stats.end\<close> the equity of the last.
\<close>

theorem backtest_series_and_stats:
  assumes "backtest p req w = (Inr resp, w')"
  shows "length (series resp) = nat (max 5 (min 365 (days req))) \<and> series resp \<noteq> [] \<and>
    stats_start (stats resp) = equity (hd (series resp)) \<and>
    stats_end (stats resp) = equity (last (series resp))"
proof -
  let ?dys = "max 5 (min 365 (days req))"
  from backtest_loop_init [of p ?dys "[0..<nat ?dys]" w]
  obtain ser where run: "backtest_loop p ?dys [0..<nat ?dys] [] w = (Inr ser, w\<lparr>tick := tick w + length [0..<nat ?dys]\<rparr>)"
    and len: "length ser = length [0..<nat ?dys]"
    by (elim exE conjE)
  from len have len': "length ser = nat ?dys" by simp
  then have ne: "ser \<noteq> []" by auto
  then obtain x xs where ser: "ser = x # xs" by (cases ser) auto
  from assms run have "series resp = ser \<and> stats_start (stats resp) = equity x \<and> stats_end (stats resp) = equity (last ser)"
    unfolding backtest_def Let_def
    by (auto simp add: io_bind_def backtest_stats_of_def ser io_raise_def io_return_def
        split: prod.splits sum.splits if_splits)
  with len' ne ser show ?thesis by simp
qed

theorem backtest_series_and_stats_witness:
  "\<exists>resp w'. backtest sample_platform sample_backtest_request fresh_world = (Inr resp, w') \<and>
     length (series resp) = 5 \<and>
     stats_start (stats resp) = equity (hd (series resp)) \<and>
     stats_end (stats resp) = equity (last (series resp))"
proof -
  from backtest_returns [OF fresh_world_reachable sample_equity_nonzero, of sample_backtest_request]
  obtain resp w' where run: "backtest sample_platform sample_backtest_request fresh_world = (Inr resp, w')"
    by blast
  from backtest_series_and_stats [OF run] run show ?thesis
    by (simp add: sample_backtest_request_def)
qed

section \<open>Script generation\<close>

lemma generate_script_returns:
  assumes "reachable w"
  shows "\<exists>resp w'. generate_script p req w = (Inr resp, w')"
  using assms unfolding generate_script_def Let_def
  by (simp add: reachable_def io_bind_def create_document_def now_def insert_one_def driver_def io_return_def
        Video_dump_def Audit_dump_def)

text \<open>
  C4. Whenever the script generator returns, the outline has exactly five entries; the
  returned script is the paragraphs joined by blank lines and starts with the first
  paragraph, which contains the topic; and the title of the video document it has just
  stored contains the topic.
\<close>

theorem generate_script_output:
  assumes "generate_script p req w = (Inr resp, w')"
  shows "length (outline resp) = 5 \<and>
     script_response.script resp = join [CHR 0x0A, CHR 0x0A] (script_paragraphs req) \<and>
     prefix (hd (script_paragraphs req) @ [CHR 0x0A, CHR 0x0A]) (script_response.script resp) \<and>
     sublist (topic req) (hd (script_paragraphs req)) \<and>
     sublist (topic req) (title (script_video req)) \<and>
     map_of (last (coll_docs w' ''video'')) ''title'' = Some (VStr (title (script_video req)))"
proof -
  have first_par: "sublist (topic req) (hd (script_paragraphs req))"
    unfolding script_paragraphs_def sublist_def
    apply simp
    apply (rule exI [of _ "''Welcome! In this '' @ style req @ '' video, we'' @ [CHR 0x27] @ ''ll cover ''"])
    apply (rule exI [of _ "'' in just '' @ str_int (duration_min req) @ '' minutes.''"])
    apply simp
    done
  have in_title: "sublist (topic req) (title (script_video req))"
    unfolding script_video_def sublist_def
    apply simp
    apply (rule exI [of _ "[]"])
    apply simp
    done
  have starts: "prefix (hd (script_paragraphs req) @ [CHR 0x0A, CHR 0x0A])
                  (join [CHR 0x0A, CHR 0x0A] (script_paragraphs req))"
    by (simp add: script_paragraphs_def prefix_def)
  from assms have run: "length (outline resp) = 5 \<and>
     script_response.script resp = join [CHR 0x0A, CHR 0x0A] (script_paragraphs req) \<and>
     map_of (last (coll_docs w' ''video'')) ''title'' = Some (VStr (title (script_video req)))"
    unfolding generate_script_def Let_def
    by (auto simp add: io_bind_def create_document_def now_def insert_one_def driver_def io_return_def
        Video_dump_def Audit_dump_def script_outline_def coll_docs_def update_conv'
        split: if_splits option.splits)
  from first_par in_title starts run show ?thesis by simp
qed

theorem generate_script_output_witness:
  "\<exists>resp w'. generate_script sample_platform sample_script_request fresh_world = (Inr resp, w') \<and>
     length (outline resp) = 5 \<and>
     sublist ''index funds'' (hd (script_paragraphs sample_script_request)) \<and>
     map_of (last (coll_docs w' ''video'')) ''title'' = Some (VStr ''index funds in 3 minutes'')"
proof -
  from generate_script_returns [OF fresh_world_reachable, of sample_platform sample_script_request]
  obtain resp w' where run: "generate_script sample_platform sample_script_request fresh_world = (Inr resp, w')"
    by blast
  have ttl: "title (script_video sample_script_request) = ''index funds in 3 minutes''"
    by code_simp
  from generate_script_output [OF run] run ttl show ?thesis
    by (simp add: sample_script_request_def)
qed

section \<open>Health\<close>

text \<open>
  C6. The health check always returns a status. Its \<open>database\<close> field is \<open>ok\<close> exactly when
  the store handle is present and listing the collection names succeeds; when the listing
  raises, the field is \<open>error: \<close> followed by the first 80 characters of the exception
  text; without a handle it is \<open>error\<close>.
\<close>

theorem health_never_raises:
  "\<exists>st w'. health p w = (Inr st, w') \<and>
     (database st = ''ok'' \<longleftrightarrow> db_present w \<and> (\<exists>names. fst (list_collection_names w) = Inr names)) \<and>
     (\<forall>e. db_present w \<and> fst (list_collection_names w) = Inl e \<longrightarrow>
          database st = ''error: '' @ take 80 (error_text e)) \<and>
     (\<not> db_present w \<longrightarrow> database st = ''error'')"
  by (cases "unreachable w")
     (auto simp add: health_def io_bind_def now_def Let_def io_catch_def list_collection_names_def
        driver_def io_return_def)

theorem health_never_raises_witness:
  "\<exists>st w'. health sample_platform down_world = (Inr st, w') \<and>
     db_present down_world \<and>
     fst (list_collection_names down_world) = Inl (DriverError ''connection refused'') \<and>
     database st = ''error: connection refused''"
  using health_never_raises [of sample_platform down_world]
  by (auto simp add: down_world_def list_collection_names_def driver_def)

section \<open>An unconfigured deployment\<close>

text \<open>
  C7. Without a store handle, heal and the settings update fail with the fixed
  \<open>HTTPException(500, "Database not configured")\<close>; user creation, contact, script
  generation and the backtest (once its statistics are computed) fail with the store
  adapter's unavailability condition, whatever the request; the health check returns a
  status whose \<open>database\<close> field is \<open>error\<close>.
\<close>

theorem unconfigured_store:
  assumes "\<not> db_present w"
  shows "fst (heal p w) = Inl (HTTPException 500 ''Database not configured'') \<and>
         fst (update_settings p sreq w) = Inl (HTTPException 500 ''Database not configured'') \<and>
         fst (create_user p user w) = Inl StoreUnavailable \<and>
         fst (submit_contact p msg w) = Inl StoreUnavailable \<and>
         fst (generate_script p screq w) = Inl StoreUnavailable \<and>
         (\<not> fis_zero (equity_at p 0) \<longrightarrow> fst (backtest p breq w) = Inl StoreUnavailable) \<and>
         (\<exists>st. fst (health p w) = Inr st \<and> database st = ''error'' \<and> collections st = [])"
proof -
  have h: "fst (heal p w) = Inl (HTTPException 500 ''Database not configured'')"
    using assms by (simp add: heal_def)
  have u: "fst (update_settings p sreq w) = Inl (HTTPException 500 ''Database not configured'')"
    using assms by (simp add: update_settings_def io_bind_def collection_def)
  have c: "fst (create_user p user w) = Inl StoreUnavailable"
    using assms by (simp add: create_user_def io_bind_def create_document_def)
  have m: "fst (submit_contact p msg w) = Inl StoreUnavailable"
    using assms by (simp add: submit_contact_def io_bind_def create_document_def)
  have g: "fst (generate_script p screq w) = Inl StoreUnavailable"
    using assms by (simp add: generate_script_def Let_def io_bind_def create_document_def)
  have b: "fst (backtest p breq w) = Inl StoreUnavailable" if nz: "\<not> fis_zero (equity_at p 0)"
  proof -
    let ?dys = "max 5 (min 365 (days breq))"
    from backtest_loop_init [of p ?dys "[0..<nat ?dys]" w]
    obtain ser where run: "backtest_loop p ?dys [0..<nat ?dys] [] w = (Inr ser, w\<lparr>tick := tick w + length [0..<nat ?dys]\<rparr>)"
      and eq: "map equity ser = map (\<lambda>i. equity_at p (int i)) [0..<nat ?dys]"
      by (elim exE conjE)
    have "[0..<nat ?dys] = 0 # [1..<nat ?dys]" by (simp add: upt_conv_Cons)
    with eq have "map equity ser = equity_at p 0 # map (\<lambda>i. equity_at p (int i)) [1..<nat ?dys]" by simp
    then obtain x xs where ser: "ser = x # xs" and x: "equity x = equity_at p 0" by (cases ser) auto
    show ?thesis
      using assms nz run x unfolding backtest_def Let_def
      by (simp add: io_bind_def backtest_stats_of_def ser io_return_def create_document_def)
  qed
  have s: "\<exists>st. fst (health p w) = Inr st \<and> database st = ''error'' \<and> collections st = []"
    using assms by (simp add: health_def io_bind_def now_def Let_def io_return_def)
  from h u c m g b s show ?thesis by blast
qed

theorem unconfigured_store_witness:
  "\<not> db_present unconfigured_world \<and> \<not> fis_zero (equity_at sample_platform 0) \<and>
   fst (heal sample_platform unconfigured_world) = Inl (HTTPException 500 ''Database not configured'') \<and>
   fst (backtest sample_platform sample_backtest_request unconfigured_world) = Inl StoreUnavailable \<and>
   fst (generate_script sample_platform sample_script_request unconfigured_world) = Inl StoreUnavailable"
proof -
  have absent: "\<not> db_present unconfigured_world" by (simp add: unconfigured_world_def)
  from unconfigured_store [OF absent, of sample_platform _ _ _ sample_script_request sample_backtest_request]
    absent sample_equity_nonzero
  show ?thesis by blast
qed

section \<open>Self-heal\<close>

lemma marker_matches [simp]: "matches ensure_filter [(''_id'', i), (''_ensure'', VBool True), (''ts'', t)]"
  by (simp add: matches_def ensure_filter_def field_matches_def)

lemma seeded_role_props [simp]:
  "\<not> matches ensure_filter (seeded_role i t)" "matches admin_role_filter (seeded_role i t)"
  by (simp_all add: matches_def ensure_filter_def admin_role_filter_def field_matches_def seeded_role_def Role_dump_def)

lemma seeded_user_props [simp]:
  "\<not> matches ensure_filter (seeded_user i t)" "matches admin_user_filter (seeded_user i t)"
  by (simp_all add: matches_def ensure_filter_def admin_user_filter_def field_matches_def seeded_user_def User_dump_def opt_str_def)

lemma heal_audit_props [simp]: "\<not> matches ensure_filter (heal_audit i t)"
  by (simp add: matches_def ensure_filter_def field_matches_def heal_audit_def Audit_dump_def opt_str_def)

lemma ensure_step:
  assumes "reachable w"
  shows "\<exists>w'. io_bind (collection c) (\<lambda>h.
     io_bind (now p) (\<lambda>ts.
     io_bind (insert_one h [(''_ensure'', VBool True), (''ts'', VTime ts)]) (\<lambda>_.
     io_bind (collection c) (\<lambda>h'.
     io_bind (delete_many h' ensure_filter) (\<lambda>_. k))))) w = k w'
    \<and> reachable w'
    \<and> (\<forall>c'. coll_docs w' c' = (if c' = c then unmarked (coll_docs w c) else coll_docs w c'))"
  using assms
  apply (simp add: reachable_def io_bind_def collection_def now_def insert_one_def driver_def delete_many_def update_conv')
  apply (rule exI, rule conjI, rule refl)
  apply (simp add: coll_docs_def update_conv' unmarked_def)
  done

lemma ensure_loop_ok:
  "reachable w \<Longrightarrow>
   \<exists>w'. ensure_loop p cs ens w = (Inr (ens @ cs), w') \<and> reachable w' \<and>
     (\<forall>c. coll_docs w' c = (if c \<in> set cs then unmarked (coll_docs w c) else coll_docs w c))"
proof (induction cs arbitrary: w ens)
  case Nil
  then show ?case by (simp add: io_return_def)
next
  case (Cons c cs)
  from ensure_step [OF Cons.prems, of c p "ensure_loop p cs (ens @ [c])"]
  obtain w1 where step: "ensure_loop p (c # cs) ens w = ensure_loop p cs (ens @ [c]) w1"
    and r1: "reachable w1"
    and d1: "\<And>c'. coll_docs w1 c' = (if c' = c then unmarked (coll_docs w c) else coll_docs w c')"
    by auto
  from Cons.IH [OF r1, of "ens @ [c]"]
  obtain w' where run: "ensure_loop p cs (ens @ [c]) w1 = (Inr ((ens @ [c]) @ cs), w')"
    and r': "reachable w'"
    and d': "\<And>c'. coll_docs w' c' = (if c' \<in> set cs then unmarked (coll_docs w1 c') else coll_docs w1 c')"
    by auto
  show ?case
    apply (rule exI [of _ w'])
    using step run r' by (simp add: d' d1 unmarked_def)
qed

lemma take1_Nil: "take (Suc 0) xs = [] \<longleftrightarrow> xs = []"
  by (cases xs) simp_all

lemma seed_role_ok:
  assumes "reachable w"
  shows "\<exists>w' i t. seed_role p w = (Inr (), w') \<and> reachable w' \<and>
     (\<forall>c. coll_docs w' c =
        coll_docs w c @ (if c = ''role'' \<and> filter (matches admin_role_filter) (coll_docs w ''role'') = []
                          then [seeded_role i t] else []))"
  using assms
  apply (cases "filter (matches admin_role_filter) (coll_docs w ''role'') = []")
   apply (simp_all add: reachable_def seed_role_def io_bind_def io_when_def io_return_def collection_def
      find_limit_def driver_def create_document_def now_def insert_one_def Role_dump_def
      admin_role_filter_def [symmetric] take1_Nil seeded_role_def)
  apply (rule exI [of _ "next_id w"], rule exI [of _ "clock p (tick w)"])
  apply (simp add: coll_docs_def update_conv')
  done

lemma seed_user_ok:
  assumes "reachable w"
    and "valid_email p ''admin@local'' \<or> filter (matches admin_user_filter) (coll_docs w ''user'') \<noteq> []"
  shows "\<exists>w' i t. seed_user p w = (Inr (), w') \<and> reachable w' \<and>
     (\<forall>c. coll_docs w' c =
        coll_docs w c @ (if c = ''user'' \<and> filter (matches admin_user_filter) (coll_docs w ''user'') = []
                         then [seeded_user i t] else []))"
  using assms
  apply (cases "filter (matches admin_user_filter) (coll_docs w ''user'') = []")
   apply (simp_all add: reachable_def seed_user_def io_bind_def io_when_def io_return_def collection_def
      find_limit_def driver_def create_document_def now_def insert_one_def User_dump_def User_init_def
      admin_user_filter_def [symmetric] take1_Nil seeded_user_def)
  apply (rule exI [of _ "next_id w"], rule exI [of _ "clock p (tick w)"])
  apply (simp add: coll_docs_def update_conv')
  done

lemma heal_audit_ok:
  assumes "reachable w"
  shows "\<exists>w' i t. io_bind (create_document p ''audit''
                   (Audit_dump \<lparr>action = ''self_heal'', actor = Some ''system'', severity = ''info'',
                                details = [(''ensured'', VList (map VStr critical))]\<rparr>)) (\<lambda>_.
        io_return r) w = (Inr r, w') \<and> reachable w' \<and>
     (\<forall>c. coll_docs w' c = coll_docs w c @ (if c = ''audit'' then [heal_audit i t] else []))"
  using assms
  apply (simp add: reachable_def io_bind_def io_return_def create_document_def now_def insert_one_def driver_def
       Audit_dump_def heal_audit_def)
  apply (rule exI [of _ "next_id w"], rule exI [of _ "clock p (tick w)"])
  apply (simp add: coll_docs_def update_conv')
  done


lemma heal_run:
  assumes r: "reachable w"
    and v: "valid_email p ''admin@local'' \<or> filter (matches admin_user_filter) (cleaned w ''user'') \<noteq> []"
  shows "\<exists>w' i1 t1 i2 t2 i3 t3.
     heal p w = (Inr \<lparr>heal_response.status = ''ok'', ensured = critical\<rparr>, w') \<and> reachable w' \<and>
     (\<forall>c. coll_docs w' c =
        cleaned w c
        @ (if c = ''role'' \<and> filter (matches admin_role_filter) (cleaned w ''role'') = [] then [seeded_role i1 t1] else [])
        @ (if c = ''user'' \<and> filter (matches admin_user_filter) (cleaned w ''user'') = [] then [seeded_user i2 t2] else [])
        @ (if c = ''audit'' then [heal_audit i3 t3] else []))"
proof -
  from ensure_loop_ok [OF r, of p critical "[]"]
  obtain w1 where e1: "ensure_loop p critical [] w = (Inr critical, w1)" and r1: "reachable w1"
    and d1: "\<And>c. coll_docs w1 c = cleaned w c"
    by (auto simp add: cleaned_def)
  from seed_role_ok [OF r1, of p]
  obtain w2 i1 t1 where e2: "seed_role p w1 = (Inr (), w2)" and r2: "reachable w2"
    and d2: "\<And>c. coll_docs w2 c = coll_docs w1 c @ (if c = ''role'' \<and> filter (matches admin_role_filter) (coll_docs w1 ''role'') = []
                          then [seeded_role i1 t1] else [])"
    by blast
  have u2: "coll_docs w2 ''user'' = cleaned w ''user''" by (simp add: d2 d1)
  from v have v2: "valid_email p ''admin@local'' \<or> filter (matches admin_user_filter) (coll_docs w2 ''user'') \<noteq> []"
    by (simp add: u2)
  from seed_user_ok [OF r2 v2]
  obtain w3 i2 t2 where e3: "seed_user p w2 = (Inr (), w3)" and r3: "reachable w3"
    and d3: "\<And>c. coll_docs w3 c = coll_docs w2 c @ (if c = ''user'' \<and> filter (matches admin_user_filter) (coll_docs w2 ''user'') = []
                          then [seeded_user i2 t2] else [])"
    by blast
  from heal_audit_ok [OF r3, of p "\<lparr>heal_response.status = ''ok'', ensured = critical\<rparr>"]
  obtain w4 i3 t3 where e4: "io_bind (create_document p ''audit''
                   (Audit_dump \<lparr>action = ''self_heal'', actor = Some ''system'', severity = ''info'',
                                details = [(''ensured'', VList (map VStr critical))]\<rparr>)) (\<lambda>_.
        io_return \<lparr>heal_response.status = ''ok'', ensured = critical\<rparr>) w3 = (Inr \<lparr>heal_response.status = ''ok'', ensured = critical\<rparr>, w4)"
    and r4: "reachable w4"
    and d4: "\<And>c. coll_docs w4 c = coll_docs w3 c @ (if c = ''audit'' then [heal_audit i3 t3] else [])"
    by blast
  from r have pres: "db_present w" by (simp add: reachable_def)
  have run: "heal p w = (Inr \<lparr>heal_response.status = ''ok'', ensured = critical\<rparr>, w4)"
    unfolding heal_def using pres e1 e2 e3 e4
    by (simp add: io_bind_def)
  have docs: "\<And>c. coll_docs w4 c =
        cleaned w c
        @ (if c = ''role'' \<and> filter (matches admin_role_filter) (cleaned w ''role'') = [] then [seeded_role i1 t1] else [])
        @ (if c = ''user'' \<and> filter (matches admin_user_filter) (cleaned w ''user'') = [] then [seeded_user i2 t2] else [])
        @ (if c = ''audit'' then [heal_audit i3 t3] else [])"
    by (simp add: d4 d3 d2 d1)
  from run r4 docs show ?thesis by blast
qed


lemma heal_fail:
  assumes r: "reachable w"
    and v: "\<not> valid_email p ''admin@local''" "filter (matches admin_user_filter) (cleaned w ''user'') = []"
  shows "\<exists>w' i1 t1.
     heal p w = (Inl (ValidationError ''email''), w') \<and> reachable w' \<and>
     (\<forall>c. coll_docs w' c =
        cleaned w c
        @ (if c = ''role'' \<and> filter (matches admin_role_filter) (cleaned w ''role'') = [] then [seeded_role i1 t1] else []))"
proof -
  from ensure_loop_ok [OF r, of p critical "[]"]
  obtain w1 where e1: "ensure_loop p critical [] w = (Inr critical, w1)" and r1: "reachable w1"
    and d1: "\<And>c. coll_docs w1 c = cleaned w c"
    by (auto simp add: cleaned_def)
  from seed_role_ok [OF r1, of p]
  obtain w2 i1 t1 where e2: "seed_role p w1 = (Inr (), w2)" and r2: "reachable w2"
    and d2: "\<And>c. coll_docs w2 c = coll_docs w1 c @ (if c = ''role'' \<and> filter (matches admin_role_filter) (coll_docs w1 ''role'') = []
                          then [seeded_role i1 t1] else [])"
    by blast
  have u2: "coll_docs w2 ''user'' = cleaned w ''user''" by (simp add: d2 d1)
  have e3: "seed_user p w2 = (Inl (ValidationError ''email''), w2)"
    using r2 v u2
    by (simp add: reachable_def seed_user_def io_bind_def io_when_def io_raise_def collection_def
      find_limit_def driver_def User_init_def admin_user_filter_def [symmetric] take1_Nil)
  from r have pres: "db_present w" by (simp add: reachable_def)
  have run: "heal p w = (Inl (ValidationError ''email''), w2)"
    unfolding heal_def using pres e1 e2 e3
    by (simp add: io_bind_def)
  have docs: "\<And>c. coll_docs w2 c =
        cleaned w c
        @ (if c = ''role'' \<and> filter (matches admin_role_filter) (cleaned w ''role'') = [] then [seeded_role i1 t1] else [])"
    by (simp add: d2 d1)
  from run r2 docs show ?thesis by blast
qed

lemma heal_docs:
  assumes r: "reachable w"
  shows "\<exists>extra. coll_docs (snd (heal p w)) c = cleaned w c @ extra \<and> unmarked extra = extra"
proof (cases "valid_email p ''admin@local'' \<or> filter (matches admin_user_filter) (cleaned w ''user'') \<noteq> []")
  case True
  from heal_run [OF r True] obtain w' i1 t1 i2 t2 i3 t3 where
    run: "heal p w = (Inr \<lparr>heal_response.status = ''ok'', ensured = critical\<rparr>, w')"
    and docs: "\<And>c. coll_docs w' c =
        cleaned w c
        @ (if c = ''role'' \<and> filter (matches admin_role_filter) (cleaned w ''role'') = [] then [seeded_role i1 t1] else [])
        @ (if c = ''user'' \<and> filter (matches admin_user_filter) (cleaned w ''user'') = [] then [seeded_user i2 t2] else [])
        @ (if c = ''audit'' then [heal_audit i3 t3] else [])"
    by blast
  show ?thesis
    apply (rule exI [of _ "(if c = ''role'' \<and> filter (matches admin_role_filter) (cleaned w ''role'') = [] then [seeded_role i1 t1] else [])
        @ (if c = ''user'' \<and> filter (matches admin_user_filter) (cleaned w ''user'') = [] then [seeded_user i2 t2] else [])
        @ (if c = ''audit'' then [heal_audit i3 t3] else [])"])
    using run by (simp add: docs unmarked_def)
next
  case False
  then have v: "\<not> valid_email p ''admin@local''" "filter (matches admin_user_filter) (cleaned w ''user'') = []"
    by simp_all
  from heal_fail [OF r v] obtain w' i1 t1 where
    run: "heal p w = (Inl (ValidationError ''email''), w')"
    and docs: "\<And>c. coll_docs w' c =
        cleaned w c
        @ (if c = ''role'' \<and> filter (matches admin_role_filter) (cleaned w ''role'') = [] then [seeded_role i1 t1] else [])"
    by blast
  show ?thesis
    apply (rule exI [of _ "(if c = ''role'' \<and> filter (matches admin_role_filter) (cleaned w ''role'') = [] then [seeded_role i1 t1] else [])"])
    using run by (simp add: docs unmarked_def)
qed

text \<open>
  C10. With a reachable store, after a heal request (whether it returns or raises at the
  user seeding) none of the ten critical collections holds a document that matches
  \<open>{"_ensure": True}\<close>: every such document that was there before is gone, not only the
  marker heal inserted, while the documents that do not match are all still there.
\<close>

theorem heal_deletes_marked:
  assumes "reachable w" "c \<in> set critical"
  shows "list_all (\<lambda>d. \<not> matches ensure_filter d) (coll_docs (snd (heal p w)) c) \<and>
    (\<forall>d \<in> set (coll_docs w c). matches ensure_filter d \<longrightarrow> d \<notin> set (coll_docs (snd (heal p w)) c)) \<and>
    (\<forall>d \<in> set (coll_docs w c). \<not> matches ensure_filter d \<longrightarrow> d \<in> set (coll_docs (snd (heal p w)) c))"
proof -
  from heal_docs [OF assms(1), of p c] obtain extra where
    docs: "coll_docs (snd (heal p w)) c = cleaned w c @ extra" and ex: "unmarked extra = extra"
    by blast
  from assms(2) have cl: "cleaned w c = unmarked (coll_docs w c)" by (simp add: cleaned_def)
  from ex have ex': "\<forall>d \<in> set extra. \<not> matches ensure_filter d"
    by (simp add: unmarked_def filter_id_conv)
  show ?thesis
    using ex' by (auto simp add: docs cl unmarked_def list_all_iff)
qed

theorem heal_deletes_marked_witness:
  "reachable marked_world \<and> ''product'' \<in> set critical \<and>
   marked_product \<in> set (coll_docs marked_world ''product'') \<and> matches ensure_filter marked_product \<and>
   marked_product \<notin> set (coll_docs (snd (heal sample_platform marked_world)) ''product'')"
proof -
  have a: "reachable marked_world" by (simp add: reachable_def marked_world_def)
  have b: "''product'' \<in> set critical" by (simp add: critical_def)
  have c: "marked_product \<in> set (coll_docs marked_world ''product'')"
    by (simp add: coll_docs_def marked_world_def)
  have d: "matches ensure_filter marked_product"
    by (simp add: matches_def ensure_filter_def field_matches_def marked_product_def)
  from heal_deletes_marked [OF a b, of sample_platform] a b c d show ?thesis by blast
qed

lemma unmarked_append: "unmarked (xs @ ys) = unmarked xs @ unmarked ys"
  by (simp add: unmarked_def)

lemma unmarked_idem: "unmarked (unmarked xs) = unmarked xs"
  by (simp add: unmarked_def)

lemma unmarked_Nil [simp]: "unmarked [] = []"
  by (simp add: unmarked_def)

lemma unmarked_seeded [simp]:
  "unmarked [seeded_role i t] = [seeded_role i t]"
  "unmarked [seeded_user i t] = [seeded_user i t]"
  "unmarked [heal_audit i t] = [heal_audit i t]"
  by (simp_all add: unmarked_def)

lemma critical_members [simp]:
  "''role'' \<in> set critical" "''user'' \<in> set critical" "''audit'' \<in> set critical"
  by (simp_all add: critical_def)

text \<open>
  Once an admin role and an admin user are in the store, and no flagged document is left in
  the role, user and audit collections, heal no longer builds a user: it succeeds, leaves
  the role and user collections as they are and adds one audit document.
\<close>

lemma heal_settled:
  assumes s: "settled w"
  shows "\<exists>resp w' i t. heal p w = (Inr resp, w') \<and> settled w' \<and>
     coll_docs w' ''role'' = coll_docs w ''role'' \<and>
     coll_docs w' ''user'' = coll_docs w ''user'' \<and>
     coll_docs w' ''audit'' = coll_docs w ''audit'' @ [heal_audit i t]"
proof -
  from s have r: "reachable w"
    and mr: "unmarked (coll_docs w ''role'') = coll_docs w ''role''"
    and mu: "unmarked (coll_docs w ''user'') = coll_docs w ''user''"
    and ma: "unmarked (coll_docs w ''audit'') = coll_docs w ''audit''"
    and ar: "filter (matches admin_role_filter) (coll_docs w ''role'') \<noteq> []"
    and au: "filter (matches admin_user_filter) (coll_docs w ''user'') \<noteq> []"
    by (simp_all add: settled_def)
  have cr: "cleaned w ''role'' = coll_docs w ''role''" by (simp add: cleaned_def mr)
  have cu: "cleaned w ''user'' = coll_docs w ''user''" by (simp add: cleaned_def mu)
  have ca: "cleaned w ''audit'' = coll_docs w ''audit''" by (simp add: cleaned_def ma)
  from au have v': "valid_email p ''admin@local'' \<or> filter (matches admin_user_filter) (cleaned w ''user'') \<noteq> []"
    by (simp add: cu)
  from heal_run [OF r v'] obtain w' i1 t1 i2 t2 i3 t3 where
    run: "heal p w = (Inr \<lparr>heal_response.status = ''ok'', ensured = critical\<rparr>, w')"
    and r': "reachable w'"
    and docs: "\<And>c. coll_docs w' c =
        cleaned w c
        @ (if c = ''role'' \<and> filter (matches admin_role_filter) (cleaned w ''role'') = [] then [seeded_role i1 t1] else [])
        @ (if c = ''user'' \<and> filter (matches admin_user_filter) (cleaned w ''user'') = [] then [seeded_user i2 t2] else [])
        @ (if c = ''audit'' then [heal_audit i3 t3] else [])"
    by blast
  have roles: "coll_docs w' ''role'' = coll_docs w ''role''" using ar by (simp add: docs cr)
  have users: "coll_docs w' ''user'' = coll_docs w ''user''" using au by (simp add: docs cu)
  have audits: "coll_docs w' ''audit'' = coll_docs w ''audit'' @ [heal_audit i3 t3]" by (simp add: docs ca)
  have s': "settled w'"
    unfolding settled_def using ar au
    by (simp add: r' roles users audits mr mu ma unmarked_append)
  from run s' roles users audits show ?thesis by blast
qed

text \<open>
  C1. The claim fails on the code at an empty store: building the admin user validates its
  e-mail, \<open>admin@local\<close> is refused, and heal raises after seeding the role and before the
  audit write. After two heal requests in sequence there is one admin role, no admin user
  and no audit document; the second request raises as the first did.
\<close>

theorem heal_raises_at_user_seeding:
  "reachable fresh_world \<and>
   fst (heal sample_platform fresh_world) = Inl (ValidationError ''email'') \<and>
   fst (heal sample_platform (heal_times sample_platform 1 fresh_world)) = Inl (ValidationError ''email'') \<and>
   length (filter (matches admin_role_filter)
             (coll_docs (heal_times sample_platform 2 fresh_world) ''role'')) = 1 \<and>
   length (filter (matches admin_user_filter)
             (coll_docs (heal_times sample_platform 2 fresh_world) ''user'')) = 0 \<and>
   coll_docs (heal_times sample_platform 2 fresh_world) ''audit'' = []"
  by code_simp

section \<open>Settings update\<close>

lemma map_of_set_fields:
  "map_of (set_fields upd d) k = (case map_of (rev upd) k of Some v \<Rightarrow> Some v | None \<Rightarrow> map_of d k)"
proof (induction upd arbitrary: d)
  case Nil
  then show ?case by simp
next
  case (Cons kv upd)
  obtain k' v' where kv: "kv = (k', v')" by (cases kv)
  show ?case
    by (simp add: kv Cons.IH update_conv' map_add_def split: option.splits)
qed

lemma matches_email_set_fields:
  "matches (email_filter e) (set_fields (settings_fields p req w) d) = matches (email_filter e) d"
  by (simp add: matches_def email_filter_def field_matches_def settings_fields_def update_conv')

lemma filter_update_first:
  assumes "\<And>d. P (f d) = P d"
  shows "filter P (update_first P f ds) = (case filter P ds of [] \<Rightarrow> [] | d # r \<Rightarrow> f d # r)"
  by (induction ds) (simp_all add: assms)

lemma update_first_split:
  assumes "list_ex P ds"
  shows "\<exists>pre d post. ds = pre @ d # post \<and> (\<forall>x \<in> set pre. \<not> P x) \<and> P d \<and>
           update_first P f ds = pre @ f d # post"
  using assms
proof (induction ds)
  case Nil
  then show ?case by simp
next
  case (Cons a ds)
  show ?case
  proof (cases "P a")
    case True
    then show ?thesis
      by (intro exI [of _ "[]"] exI [of _ a] exI [of _ ds]) simp
  next
    case False
    with Cons.prems have "list_ex P ds" by simp
    from Cons.IH [OF this] obtain pre d post where
      "ds = pre @ d # post" "\<forall>x \<in> set pre. \<not> P x" "P d" "update_first P f ds = pre @ f d # post"
      by blast
    with False show ?thesis
      by (intro exI [of _ "a # pre"] exI [of _ d] exI [of _ post]) simp
  qed
qed

lemma update_settings_run:
  assumes "reachable w"
  shows "\<exists>w'. update_settings p req w =
            (Inr (case filter (matches (email_filter (SettingsUpdate.email req))) (coll_docs w' ''user'') of
                    [] \<Rightarrow> None | d # _ \<Rightarrow> Some (strip_id d)), w') \<and>
          reachable w' \<and>
          coll_docs w' ''user'' =
            (if list_ex (matches (email_filter (SettingsUpdate.email req))) (coll_docs w ''user'')
             then update_first (matches (email_filter (SettingsUpdate.email req)))
                    (set_fields (settings_fields p req w)) (coll_docs w ''user'')
             else coll_docs w ''user'' @ [upserted_user p req w]) \<and>
          (\<forall>c. c \<noteq> ''user'' \<and> c \<noteq> ''audit'' \<longrightarrow> coll_docs w' c = coll_docs w c)"
  using assms
  apply (cases "list_ex (matches (email_filter (SettingsUpdate.email req))) (coll_docs w ''user'')")
   apply (simp_all add: reachable_def update_settings_def io_bind_def io_return_def collection_def now_def
      update_one_upsert_def driver_def create_document_def insert_one_def find_one_no_id_def
      Audit_dump_def settings_fields_def upserted_user_def email_filter_def coll_docs_def update_conv')
  done


lemma map_of_strip_id: "map_of (strip_id d) k = (if k = ''_id'' then None else map_of d k)"
  unfolding strip_id_def by (induction d) auto

lemma upserted_user_matches: "matches (email_filter (SettingsUpdate.email req)) (upserted_user p req w)"
  by (simp add: matches_def email_filter_def field_matches_def upserted_user_def)

lemma list_ex_filter: "list_ex P ds \<longleftrightarrow> filter P ds \<noteq> []"
  by (induction ds) auto

text \<open>
  C8. With a reachable store, the settings update returns the first document of the user
  collection that matches the request's e-mail, as stored after the update, without its
  \<open>_id\<close>; every other field of that document is returned as stored.
\<close>

theorem update_settings_returns_stored:
  assumes "reachable w"
  shows "\<exists>d rest w'.
     update_settings p req w = (Inr (Some (strip_id d)), w') \<and>
     filter (matches (email_filter (SettingsUpdate.email req))) (coll_docs w' ''user'') = d # rest \<and>
     map_of (strip_id d) ''_id'' = None \<and>
     (\<forall>k. k \<noteq> ''_id'' \<longrightarrow> map_of (strip_id d) k = map_of d k)"
proof -
  let ?P = "matches (email_filter (SettingsUpdate.email req))"
  from update_settings_run [OF assms, of p req] obtain w' where
    run: "update_settings p req w =
            (Inr (case filter ?P (coll_docs w' ''user'') of [] \<Rightarrow> None | d # _ \<Rightarrow> Some (strip_id d)), w')"
    and users: "coll_docs w' ''user'' =
            (if list_ex ?P (coll_docs w ''user'')
             then update_first ?P (set_fields (settings_fields p req w)) (coll_docs w ''user'')
             else coll_docs w ''user'' @ [upserted_user p req w])"
    by blast
  have "filter ?P (coll_docs w' ''user'') \<noteq> []"
  proof (cases "list_ex ?P (coll_docs w ''user'')")
    case True
    then obtain d0 r0 where f0: "filter ?P (coll_docs w ''user'') = d0 # r0"
      by (cases "filter ?P (coll_docs w ''user'')") (simp_all add: list_ex_filter)
    show ?thesis
      using True by (simp add: users filter_update_first [of ?P, OF matches_email_set_fields] f0)
  next
    case False
    then show ?thesis by (simp add: users upserted_user_matches)
  qed
  then obtain d rest where f: "filter ?P (coll_docs w' ''user'') = d # rest"
    by (cases "filter ?P (coll_docs w' ''user'')") simp_all
  from run f have "update_settings p req w = (Inr (Some (strip_id d)), w')" by simp
  with f show ?thesis by (auto simp add: map_of_strip_id)
qed

theorem update_settings_returns_stored_witness:
  "reachable fresh_world \<and>
   (\<exists>d rest w'. update_settings sample_platform newcomer_request fresh_world = (Inr (Some (strip_id d)), w') \<and>
      filter (matches (email_filter ''new@example.com'')) (coll_docs w' ''user'') = d # rest \<and>
      map_of (strip_id d) ''_id'' = None)"
  using update_settings_returns_stored [OF fresh_world_reachable, of sample_platform newcomer_request]
    fresh_world_reachable
  by (simp add: newcomer_request_def) blast

text \<open>
  C9. With a reachable store and no user document matching the request's e-mail, the
  settings update appends a new document to the user collection, with that e-mail and the
  supplied settings, and returns it (without its \<open>_id\<close>).
\<close>

theorem update_settings_creates_user:
  assumes "reachable w"
    and "\<not> list_ex (matches (email_filter (SettingsUpdate.email req))) (coll_docs w ''user'')"
  shows "\<exists>w'. update_settings p req w = (Inr (Some (strip_id (upserted_user p req w))), w') \<and>
     coll_docs w' ''user'' = coll_docs w ''user'' @ [upserted_user p req w] \<and>
     matches (email_filter (SettingsUpdate.email req)) (upserted_user p req w) \<and>
     map_of (upserted_user p req w) ''email'' = Some (VStr (SettingsUpdate.email req)) \<and>
     map_of (upserted_user p req w) ''settings'' = Some (VDict (SettingsUpdate.settings req))"
proof -
  let ?P = "matches (email_filter (SettingsUpdate.email req))"
  from update_settings_run [OF assms(1), of p req] obtain w' where
    run: "update_settings p req w =
            (Inr (case filter ?P (coll_docs w' ''user'') of [] \<Rightarrow> None | d # _ \<Rightarrow> Some (strip_id d)), w')"
    and users: "coll_docs w' ''user'' =
            (if list_ex ?P (coll_docs w ''user'')
             then update_first ?P (set_fields (settings_fields p req w)) (coll_docs w ''user'')
             else coll_docs w ''user'' @ [upserted_user p req w])"
    by blast
  from assms(2) have none: "filter ?P (coll_docs w ''user'') = []" by (simp add: list_ex_filter)
  from assms(2) users have u: "coll_docs w' ''user'' = coll_docs w ''user'' @ [upserted_user p req w]" by simp
  have f: "filter ?P (coll_docs w' ''user'') = [upserted_user p req w]"
    by (simp add: u none upserted_user_matches)
  from run f have r: "update_settings p req w = (Inr (Some (strip_id (upserted_user p req w))), w')" by simp
  have fields: "map_of (upserted_user p req w) ''email'' = Some (VStr (SettingsUpdate.email req)) \<and>
     map_of (upserted_user p req w) ''settings'' = Some (VDict (SettingsUpdate.settings req))"
    by (simp add: upserted_user_def)
  from r u fields upserted_user_matches [of req p w] show ?thesis by blast
qed

theorem update_settings_creates_user_witness:
  "reachable fresh_world \<and>
   \<not> list_ex (matches (email_filter ''new@example.com'')) (coll_docs fresh_world ''user'') \<and>
   (\<exists>w'. coll_docs w' ''user'' = [upserted_user sample_platform newcomer_request fresh_world] \<and>
      update_settings sample_platform newcomer_request fresh_world =
        (Inr (Some (strip_id (upserted_user sample_platform newcomer_request fresh_world))), w'))"
proof -
  have e: "coll_docs fresh_world ''user'' = []" by (simp add: coll_docs_def fresh_world_def)
  have n: "\<not> list_ex (matches (email_filter (SettingsUpdate.email newcomer_request))) (coll_docs fresh_world ''user'')"
    by (simp add: e)
  from update_settings_creates_user [OF fresh_world_reachable n, of sample_platform] fresh_world_reachable
  show ?thesis by (simp add: e newcomer_request_def) blast
qed

text \<open>
  C5 (amended). With a reachable store and a user document matching the request's e-mail,
  the settings update changes the first such document only: its \<open>settings\<close> field becomes
  the supplied map, its \<open>updated_at\<close> the current time, every other field keeps its value;
  the other user documents and the collections other than user and audit are unchanged.
\<close>

theorem update_settings_replaces_settings:
  assumes "reachable w"
    and "list_ex (matches (email_filter (SettingsUpdate.email req))) (coll_docs w ''user'')"
  shows "\<exists>pre d post d'.
     coll_docs w ''user'' = pre @ d # post \<and>
     (\<forall>x \<in> set pre. \<not> matches (email_filter (SettingsUpdate.email req)) x) \<and>
     matches (email_filter (SettingsUpdate.email req)) d \<and>
     coll_docs (snd (update_settings p req w)) ''user'' = pre @ d' # post \<and>
     map_of d' ''settings'' = Some (VDict (SettingsUpdate.settings req)) \<and>
     map_of d' ''updated_at'' = Some (VTime (clock p (tick w))) \<and>
     (\<forall>k. k \<noteq> ''settings'' \<and> k \<noteq> ''updated_at'' \<longrightarrow> map_of d' k = map_of d k) \<and>
     (\<forall>c. c \<noteq> ''user'' \<and> c \<noteq> ''audit'' \<longrightarrow>
          coll_docs (snd (update_settings p req w)) c = coll_docs w c)"
proof -
  let ?P = "matches (email_filter (SettingsUpdate.email req))"
  let ?f = "set_fields (settings_fields p req w)"
  from update_settings_run [OF assms(1), of p req] obtain w' where
    run: "update_settings p req w =
            (Inr (case filter ?P (coll_docs w' ''user'') of [] \<Rightarrow> None | d # _ \<Rightarrow> Some (strip_id d)), w')"
    and users: "coll_docs w' ''user'' =
            (if list_ex ?P (coll_docs w ''user'')
             then update_first ?P ?f (coll_docs w ''user'')
             else coll_docs w ''user'' @ [upserted_user p req w])"
    and others: "\<forall>c. c \<noteq> ''user'' \<and> c \<noteq> ''audit'' \<longrightarrow> coll_docs w' c = coll_docs w c"
    by blast
  from update_first_split [OF assms(2), of ?f] obtain pre d post where
    split: "coll_docs w ''user'' = pre @ d # post" "\<forall>x \<in> set pre. \<not> ?P x" "?P d"
    and upd: "update_first ?P ?f (coll_docs w ''user'') = pre @ ?f d # post"
    by blast
  from run have w': "snd (update_settings p req w) = w'" by simp
  have after: "coll_docs (snd (update_settings p req w)) ''user'' = pre @ ?f d # post"
    using assms(2) by (simp add: w' users upd)
  have fields: "map_of (?f d) ''settings'' = Some (VDict (SettingsUpdate.settings req)) \<and>
     map_of (?f d) ''updated_at'' = Some (VTime (clock p (tick w))) \<and>
     (\<forall>k. k \<noteq> ''settings'' \<and> k \<noteq> ''updated_at'' \<longrightarrow> map_of (?f d) k = map_of d k)"
    by (simp add: settings_fields_def update_conv')
  from others have others': "\<forall>c. c \<noteq> ''user'' \<and> c \<noteq> ''audit'' \<longrightarrow>
          coll_docs (snd (update_settings p req w)) c = coll_docs w c"
    by (simp add: w')
  show ?thesis
    apply (rule exI [of _ pre], rule exI [of _ d], rule exI [of _ post], rule exI [of _ "?f d"])
    apply (intro conjI)
           apply (rule split(1))
          apply (rule split(2))
         apply (rule split(3))
        apply (rule after)
       apply (rule fields [THEN conjunct1])
      apply (rule fields [THEN conjunct2, THEN conjunct1])
     apply (rule fields [THEN conjunct2, THEN conjunct2])
    apply (rule others')
    done
qed

lemma themed_world_facts:
  "reachable themed_world"
  "list_ex (matches (email_filter (SettingsUpdate.email language_request))) (coll_docs themed_world ''user'')"
  by code_simp+

theorem update_settings_replaces_settings_witness:
  "reachable themed_world \<and>
   list_ex (matches (email_filter (SettingsUpdate.email language_request))) (coll_docs themed_world ''user'') \<and>
   (\<exists>pre d post d'.
     coll_docs themed_world ''user'' = pre @ d # post \<and>
     coll_docs (snd (update_settings sample_platform language_request themed_world)) ''user'' = pre @ d' # post \<and>
     map_of d' ''settings'' = Some (VDict (SettingsUpdate.settings language_request)) \<and>
     (\<forall>k. k \<noteq> ''settings'' \<and> k \<noteq> ''updated_at'' \<longrightarrow> map_of d' k = map_of d k))"
proof -
  from update_settings_replaces_settings [OF themed_world_facts, of sample_platform]
  obtain pre d post d' where
    before: "coll_docs themed_world ''user'' = pre @ d # post"
    and after: "coll_docs (snd (update_settings sample_platform language_request themed_world)) ''user'' = pre @ d' # post"
    and new: "map_of d' ''settings'' = Some (VDict (SettingsUpdate.settings language_request))"
    and kept: "\<forall>k. k \<noteq> ''settings'' \<and> k \<noteq> ''updated_at'' \<longrightarrow> map_of d' k = map_of d k"
    by (elim exE conjE)
  show ?thesis
    apply (intro conjI)
      apply (rule themed_world_facts(1))
     apply (rule themed_world_facts(2))
    apply (rule exI [of _ pre], rule exI [of _ d], rule exI [of _ post], rule exI [of _ d'])
    apply (intro conjI)
       apply (rule before)
      apply (rule after)
     apply (rule new)
    apply (rule kept)
    done
qed

text \<open>
  C5 as stated fails: the supplied map is not merged into the stored one. After a first
  update for \<open>a@b.co\<close> the stored map is \<open>{theme: dark}\<close>; after a second one with
  \<open>{lang: en}\<close> it is \<open>{lang: en}\<close>, the \<open>theme\<close> key is gone.
\<close>

theorem update_settings_drops_old_keys:
  "map_of (hd (coll_docs themed_world ''user'')) ''settings'' = Some (VDict [(''theme'', VStr ''dark'')]) \<and>
   map_of (hd (coll_docs (snd (update_settings sample_platform language_request themed_world)) ''user''))
     ''settings'' = Some (VDict [(''lang'', VStr ''en'')])"
  by code_simp

end
